theory Spec2Isabelle
  imports Complex_Main
begin

section \<open>JavaScript values of a webhook request\<close>

text \<open>
  The body of a request is what \<^verbatim>\<open>express.json()\<close> parsed, or \<^verbatim>\<open>undefined\<close> when
  nothing was parsed.  A number is the real number it denotes (the handler only looks at
  whether it is zero), a string is its list of characters, an object is the list of its
  bindings, one per key.
\<close>

datatype jsval =
    JUndefined
  | JNull
  | JBool bool
  | JNum real
  | JStr string
  | JArr "jsval list"
  | JObj "(string \<times> jsval) list"

text \<open>
  What the handler can throw: its own \<^verbatim>\<open>WebhookException\<close> with a message, and the
  runtime's \<^verbatim>\<open>TypeError\<close> for reading a property (the string) of \<^verbatim>\<open>undefined\<close> or
  \<^verbatim>\<open>null\<close> (the value).  \<open>UnknownJob\<close> is the registry's failure on an id it does not know.
\<close>

datatype js_error =
    WebhookException string
  | TypeError jsval string
  | UnknownJob nat

text \<open>Truthiness, as \<^verbatim>\<open>!x\<close> and \<^verbatim>\<open>if (x)\<close> read a value.\<close>

fun truthy :: "jsval \<Rightarrow> bool" where
  "truthy JUndefined = False"
| "truthy JNull = False"
| "truthy (JBool b) = b"
| "truthy (JNum n) = (n \<noteq> 0)"
| "truthy (JStr s) = (s \<noteq> [])"
| "truthy (JArr xs) = True"
| "truthy (JObj kvs) = True"

definition nullish :: "jsval \<Rightarrow> bool" where
  "nullish v = (v = JUndefined \<or> v = JNull)"

text \<open>A property name that is an array index: decimal digits without a leading zero.\<close>

definition digit_of :: "char \<Rightarrow> nat option" where
  "digit_of c =
     (let n = (of_char c :: nat) in if 48 \<le> n \<and> n \<le> 57 then Some (n - 48) else None)"

fun decimal :: "string \<Rightarrow> nat \<Rightarrow> nat option" where
  "decimal [] acc = Some acc"
| "decimal (c # cs) acc =
     (case digit_of c of None \<Rightarrow> None | Some d \<Rightarrow> decimal cs (10 * acc + d))"

definition array_index :: "string \<Rightarrow> nat option" where
  "array_index k =
     (case k of
        [] \<Rightarrow> None
      | c # cs \<Rightarrow> if c = CHR ''0'' \<and> cs \<noteq> [] then None else decimal k 0)"

text \<open>
  Reading property \<open>k\<close> of a value that is neither \<^verbatim>\<open>undefined\<close> nor \<^verbatim>\<open>null\<close>.  Inherited
  members of the prototypes are left out: the handler reads only \<^verbatim>\<open>trigger\<close>, \<^verbatim>\<open>response\<close>,
  \<^verbatim>\<open>content\<close>, \<^verbatim>\<open>id\<close>, \<^verbatim>\<open>transactions\<close>, \<^verbatim>\<open>length\<close>, \<^verbatim>\<open>0\<close>, \<^verbatim>\<open>type\<close>, \<^verbatim>\<open>category_id\<close>,
  \<^verbatim>\<open>description\<close> and \<^verbatim>\<open>destination_name\<close>, none of which is inherited.
\<close>

fun read_prop :: "jsval \<Rightarrow> string \<Rightarrow> jsval" where
  "read_prop (JObj kvs) k = (case map_of kvs k of Some v \<Rightarrow> v | None \<Rightarrow> JUndefined)"
| "read_prop (JArr xs) k =
     (if k = ''length'' then JNum (of_nat (length xs))
      else case array_index k of
             Some i \<Rightarrow> if i < length xs then xs ! i else JUndefined
           | None \<Rightarrow> JUndefined)"
| "read_prop (JStr s) k =
     (if k = ''length'' then JNum (of_nat (length s))
      else case array_index k of
             Some i \<Rightarrow> if i < length s then JStr [s ! i] else JUndefined
           | None \<Rightarrow> JUndefined)"
| "read_prop v k = JUndefined"

text \<open>\<^verbatim>\<open>v.k\<close> and \<^verbatim>\<open>v[k]\<close>: a TypeError on \<^verbatim>\<open>undefined\<close> and \<^verbatim>\<open>null\<close>.\<close>

definition get_prop :: "jsval \<Rightarrow> string \<Rightarrow> js_error + jsval" where
  "get_prop v k = (if nullish v then Inl (TypeError v k) else Inr (read_prop v k))"

text \<open>\<^verbatim>\<open>v?.k\<close>: \<^verbatim>\<open>undefined\<close> on \<^verbatim>\<open>undefined\<close> and \<^verbatim>\<open>null\<close>.\<close>

definition opt_prop :: "jsval \<Rightarrow> string \<Rightarrow> jsval" where
  "opt_prop v k = (if nullish v then JUndefined else read_prop v k)"

text \<open>A chain \<^verbatim>\<open>v.k1.k2...\<close>, which stops at the first TypeError.\<close>

fun path :: "jsval \<Rightarrow> string list \<Rightarrow> js_error + jsval" where
  "path v [] = Inr v"
| "path v (k # ks) = (case get_prop v k of Inl e \<Rightarrow> Inl e | Inr w \<Rightarrow> path w ks)"

text \<open>A chain \<^verbatim>\<open>v?.k1?.k2...\<close>.\<close>

fun opt_path :: "jsval \<Rightarrow> string list \<Rightarrow> jsval" where
  "opt_path v [] = v"
| "opt_path v (k # ks) = opt_path (opt_prop v k) ks"

section \<open>The application state\<close>

datatype job_status = Created | InProgress | Finished

text \<open>A job of the registry; \<open>data\<close> is the address of its data object.\<close>

record job =
  job_id :: nat
  status :: job_status
  data :: nat

text \<open>
  The function pushed onto the queue, as the values it closes over: the job, the two
  extracted fields and the request body.
\<close>

record closure =
  c_job :: nat
  c_destinationName :: jsval
  c_description :: jsval
  c_body :: jsval

text \<open>The calls the application makes to its collaborators, in the order it makes them.\<close>

datatype call =
    CreateJob nat
  | QueuePush closure
  | SetJobInProgress nat
  | GetCategories
  | Classify "jsval list" jsval jsval
  | UpdateJobData nat nat
  | SetCategory jsval jsval jsval
  | SetJobFinished nat

text \<open>
  The heap holds the data objects (a map from property names to values) by address, so
  that two references to one object are told from two objects with equal contents.
  Of the queue, \<open>queue\<close> lists the closures pushed, in the order pushed; the first
  \<open>started\<close> of them have been taken off and begun, and \<open>pending\<close> of these have not
  settled yet.
\<close>

record app_state =
  heap :: "nat \<Rightarrow> string \<rightharpoonup> jsval"
  next_addr :: nat
  jobs :: "job list"
  next_id :: nat
  emitted :: "(string \<times> job) list"
  queue :: "closure list"
  started :: nat
  pending :: nat
  calls :: "call list"

text \<open>A step either throws or returns a value, and leaves a state.\<close>

type_synonym 'a step = "app_state \<Rightarrow> (js_error + 'a) \<times> app_state"

definition ret :: "'a \<Rightarrow> 'a step" where
  "ret x st = (Inr x, st)"

definition throw :: "js_error \<Rightarrow> 'a step" where
  "throw e st = (Inl e, st)"

definition and_then :: "'a step \<Rightarrow> ('a \<Rightarrow> 'b step) \<Rightarrow> 'b step" where
  "and_then m f st = (case m st of (Inl e, st') \<Rightarrow> (Inl e, st') | (Inr x, st') \<Rightarrow> f x st')"

definition lift :: "js_error + 'a \<Rightarrow> 'a step" where
  "lift r st = (r, st)"

definition logged :: "call \<Rightarrow> 'a step \<Rightarrow> 'a step" where
  "logged c m st = m (st\<lparr>calls := calls st @ [c]\<rparr>)"

text \<open>An object literal or \<^verbatim>\<open>Object.assign({}, src)\<close>: a new object at a fresh address.\<close>

definition new_object :: "(string \<rightharpoonup> jsval) \<Rightarrow> nat step" where
  "new_object props st =
     (Inr (next_addr st),
      st\<lparr>heap := (heap st)(next_addr st := props), next_addr := Suc (next_addr st)\<rparr>)"

text \<open>\<^verbatim>\<open>o.k = v\<close> on the object at address \<open>a\<close>.\<close>

definition set_field :: "nat \<Rightarrow> string \<Rightarrow> jsval \<Rightarrow> unit step" where
  "set_field a k v st = (Inr (), st\<lparr>heap := (heap st)(a := (heap st a)(k \<mapsto> v))\<rparr>)"

section \<open>The job registry\<close>

text \<open>
  Modelled from the spec: the registry is an in-memory store keyed by job id; this is its
  lookup.  \<^verbatim>\<open>JobList.js\<close> is not among the sources.
\<close>

definition find_job :: "app_state \<Rightarrow> nat \<Rightarrow> job option" where
  "find_job st i = find (\<lambda>j. job_id j = i) (jobs st)"

text \<open>
  Modelled from the spec: \<^verbatim>\<open>JobList.createJob\<close>, whose file is not among the sources.
  It allocates a fresh id, sets status Created, stores the data as given and emits
  \<^verbatim>\<open>job created\<close> with the job.
\<close>

definition createJob :: "nat \<Rightarrow> job step" where
  "createJob d st =
     (let j = \<lparr>job_id = next_id st, status = Created, data = d\<rparr>
      in (Inr j, st\<lparr>jobs := jobs st @ [j], next_id := Suc (next_id st),
                    emitted := emitted st @ [(''job created'', j)]\<rparr>))"

text \<open>
  Modelled from the spec: the common part of the three registry updates, which change
  one job by its id and emit \<^verbatim>\<open>job updated\<close> with it; an unknown id is an error.
\<close>

definition update_job :: "nat \<Rightarrow> (job \<Rightarrow> job) \<Rightarrow> unit step" where
  "update_job i f st =
     (case find_job st i of
        None \<Rightarrow> (Inl (UnknownJob i), st)
      | Some j \<Rightarrow>
          (Inr (), st\<lparr>jobs := map (\<lambda>x. if job_id x = i then f x else x) (jobs st),
                      emitted := emitted st @ [(''job updated'', f j)]\<rparr>))"

text \<open>
  Modelled from the spec: \<^verbatim>\<open>JobList.setJobInProgress\<close>, the transition from Created to
  InProgress.
\<close>

definition setJobInProgress :: "nat \<Rightarrow> unit step" where
  "setJobInProgress i =
     update_job i (\<lambda>j. if status j = Created then j\<lparr>status := InProgress\<rparr> else j)"

text \<open>
  Modelled from the spec: \<^verbatim>\<open>JobList.updateJobData\<close>, which replaces the data wholesale and
  keeps the status.
\<close>

definition updateJobData :: "nat \<Rightarrow> nat \<Rightarrow> unit step" where
  "updateJobData i newData = update_job i (\<lambda>j. j\<lparr>data := newData\<rparr>)"

text \<open>
  Modelled from the spec: \<^verbatim>\<open>JobList.setJobFinished\<close>, the transition from any status to
  Finished.
\<close>

definition setJobFinished :: "nat \<Rightarrow> unit step" where
  "setJobFinished i = update_job i (\<lambda>j. j\<lparr>status := Finished\<rparr>)"

text \<open>
  \<^verbatim>\<open>job.data\<close>: the closure holds the job object that \<^verbatim>\<open>createJob\<close> returned, which is
  the registry's own, found here by its id.
\<close>

definition job_data :: "nat \<Rightarrow> nat step" where
  "job_data i st =
     (case find_job st i of None \<Rightarrow> (Inl (UnknownJob i), st) | Some j \<Rightarrow> (Inr (data j), st))"

section \<open>The queued closure\<close>

text \<open>What \<^verbatim>\<open>classify\<close> resolves to.\<close>

record classification =
  category :: jsval
  prompt :: jsval
  response :: jsval

text \<open>
  The two external services, taken as parameters: what each call resolves to or rejects
  with.  The taxonomy is a Map from category names to identifiers.
\<close>

record services =
  getCategories :: "js_error + (string \<times> jsval) list"
  classify :: "jsval list \<Rightarrow> jsval \<Rightarrow> jsval \<Rightarrow> js_error + classification"
  setCategory :: "jsval \<Rightarrow> jsval \<Rightarrow> jsval \<Rightarrow> js_error + unit"

text \<open>\<^verbatim>\<open>categories.get(k)\<close>: only a string can equal a key of the taxonomy.\<close>

fun map_get :: "(string \<times> jsval) list \<Rightarrow> jsval \<Rightarrow> jsval" where
  "map_get m (JStr k) = (case map_of m k of Some v \<Rightarrow> v | None \<Rightarrow> JUndefined)"
| "map_get m v = JUndefined"

text \<open>
  The closure of \<^verbatim>\<open>#handleWebhook\<close>, an async function, in the two parts its first
  \<^verbatim>\<open>await\<close> cuts it into.  The first part runs when the closure is called: it marks the
  job in progress and calls \<^verbatim>\<open>getCategories\<close>.  The second part runs once that call has
  settled.  Calls to the logger are left out.
\<close>

definition closure_start :: "closure \<Rightarrow> unit step" where
  "closure_start f =
     and_then (logged (SetJobInProgress (c_job f)) (setJobInProgress (c_job f))) (\<lambda>u1.
     logged GetCategories (ret ()))"

definition closure_rest :: "services \<Rightarrow> closure \<Rightarrow> unit step" where
  "closure_rest svc f =
     and_then (lift (getCategories svc)) (\<lambda>categories.
     let names = map (\<lambda>kv. JStr (fst kv)) categories in
     and_then (logged (Classify names (c_destinationName f) (c_description f))
                 (lift (classify svc names (c_destinationName f) (c_description f)))) (\<lambda>r.
     and_then (job_data (c_job f)) (\<lambda>old.
     and_then (\<lambda>st. new_object (heap st old) st) (\<lambda>newData.
     and_then (set_field newData ''category'' (category r)) (\<lambda>u2.
     and_then (set_field newData ''prompt'' (prompt r)) (\<lambda>u3.
     and_then (set_field newData ''response'' (response r)) (\<lambda>u4.
     and_then (logged (UpdateJobData (c_job f) newData)
                 (updateJobData (c_job f) newData)) (\<lambda>u5.
     and_then
       (if truthy (category r) then
          and_then (lift (path (c_body f) [''content'', ''id''])) (\<lambda>cid.
          and_then (lift (path (c_body f) [''content'', ''transactions''])) (\<lambda>txs.
          logged (SetCategory cid txs (map_get categories (category r)))
            (lift (setCategory svc cid txs (map_get categories (category r))))))
        else ret ()) (\<lambda>u6.
     logged (SetJobFinished (c_job f)) (setJobFinished (c_job f)))))))))))"

text \<open>A run of the whole closure, from its call to its end.\<close>

definition run_closure :: "services \<Rightarrow> closure \<Rightarrow> unit step" where
  "run_closure svc f = and_then (closure_start f) (\<lambda>u. closure_rest svc f)"

section \<open>The queue\<close>

text \<open>
  Modelled from the spec: the \<^verbatim>\<open>queue\<close> package is not among the sources.  Built with
  concurrency 1 and autostart (\<^verbatim>\<open>App.js\<close>, lines 35 to 39), it executes at most one
  closure at a time, in the order pushed, and begins as soon as a closure is pushed.
  So when no closure is executing and one is waiting, the first one waiting is taken off
  and called, which runs it up to its first \<^verbatim>\<open>await\<close>; what an async function throws
  rejects its promise and is not thrown to its caller.
\<close>

definition queue_start :: "unit step" where
  "queue_start st =
     (if pending st = 0 \<and> started st < length (queue st) then
        (Inr (), snd (closure_start (queue st ! started st)
                        (st\<lparr>started := Suc (started st), pending := Suc (pending st)\<rparr>)))
      else (Inr (), st))"

text \<open>
  Modelled from the spec: \<^verbatim>\<open>push\<close> of the \<^verbatim>\<open>queue\<close> package.  The closure joins the end
  of the queue, and the queue starts if it can.
\<close>

definition queue_push :: "closure \<Rightarrow> unit step" where
  "queue_push f =
     and_then (\<lambda>st. (Inr (), st\<lparr>queue := queue st @ [f]\<rparr>)) (\<lambda>u. queue_start)"

section \<open>The webhook handler\<close>

text \<open>
  \<^verbatim>\<open>#handleWebhook\<close> and \<^verbatim>\<open>#onWebhook\<close> of \<^verbatim>\<open>App.js\<close>, on the body of the request.  Calls
  to the logger are left out.
\<close>

text \<open>
  \<^verbatim>\<open>this.#queue.push(f)\<close> is the last step of the handler: when the queue is idle the
  closure starts within the handler, before it returns.
\<close>

definition tx0 :: "string \<Rightarrow> string list" where
  "tx0 k = [''content'', ''transactions'', ''0'', k]"

definition handleWebhook :: "jsval \<Rightarrow> unit step" where
  "handleWebhook body =
    (if opt_prop body ''trigger'' \<noteq> JStr ''STORE_TRANSACTION'' then
       throw (WebhookException ''trigger is not STORE_TRANSACTION. Request will not be processed'')
     else if opt_prop body ''response'' \<noteq> JStr ''TRANSACTIONS'' then
       throw (WebhookException ''trigger is not TRANSACTION. Request will not be processed'')
     else if \<not> truthy (opt_path body [''content'', ''id'']) then
       throw (WebhookException ''Missing content.id'')
     else if opt_path body [''content'', ''transactions'', ''length''] = JNum 0 then
       throw (WebhookException ''No transactions are available in content.transactions'')
     else
       and_then (lift (path body (tx0 ''type''))) (\<lambda>ty.
       if ty \<noteq> JStr ''withdrawal'' then
         throw (WebhookException
           ''content.transactions[0].type has to be 'withdrawal'. Transaction will be ignored.'')
       else
       and_then (lift (path body (tx0 ''category_id''))) (\<lambda>cat.
       if cat \<noteq> JNull then
         throw (WebhookException
           ''content.transactions[0].category_id is already set. Transaction will be ignored.'')
       else
       and_then (lift (path body (tx0 ''description''))) (\<lambda>d.
       if \<not> truthy d then
         throw (WebhookException ''Missing content.transactions[0].description'')
       else
       and_then (lift (path body (tx0 ''destination_name''))) (\<lambda>dn.
       if \<not> truthy dn then
         throw (WebhookException ''Missing content.transactions[0].destination_name'')
       else
       and_then (lift (path body (tx0 ''destination_name''))) (\<lambda>destinationName.
       and_then (lift (path body (tx0 ''description''))) (\<lambda>description.
       and_then (new_object [''destinationName'' \<mapsto> destinationName,
                             ''description'' \<mapsto> description]) (\<lambda>d0.
       and_then (logged (CreateJob d0) (createJob d0)) (\<lambda>job.
       let f = \<lparr>c_job = job_id job, c_destinationName = destinationName,
                c_description = description, c_body = body\<rparr>
       in logged (QueuePush f) (queue_push f))))))))))"

text \<open>
  The response: the status (200 unless the handler sets it) and the text sent.
\<close>

record reply =
  res_status :: nat
  res_body :: string

text \<open>
  \<^verbatim>\<open>e.message\<close>: the text the handler gave its own exception; the text of any other
  error is the runtime's, the parameter \<open>rt\<close>.
\<close>

fun message :: "(js_error \<Rightarrow> string) \<Rightarrow> js_error \<Rightarrow> string" where
  "message rt (WebhookException m) = m"
| "message rt e = rt e"

definition onWebhook :: "(js_error \<Rightarrow> string) \<Rightarrow> jsval \<Rightarrow> app_state \<Rightarrow> reply \<times> app_state" where
  "onWebhook rt body st =
     (case handleWebhook body st of
        (Inr u, st') \<Rightarrow> (\<lparr>res_status = 200, res_body = ''Queued''\<rparr>, st')
      | (Inl e, st') \<Rightarrow> (\<lparr>res_status = 400, res_body = message rt e\<rparr>, st'))"

section \<open>The validation chain, rule by rule\<close>

text \<open>
  The checks of the handler under the names of the specification, in its order.  Its
  first rule looks at two fields, so there are eight checks for seven rules.
\<close>

datatype rule =
    TriggerRule
  | ResponseRule
  | ContentIdRule
  | TransactionsRule
  | TypeRule
  | CategoryRule
  | DescriptionRule
  | DestinationRule

definition rules :: "rule list" where
  "rules = [TriggerRule, ResponseRule, ContentIdRule, TransactionsRule, TypeRule,
            CategoryRule, DescriptionRule, DestinationRule]"

text \<open>
  Whether a body violates a rule: the condition of the rule's \<^verbatim>\<open>if\<close>, evaluated on its
  own.  The conditions on the first transaction can end in a TypeError.
\<close>

definition check :: "jsval \<Rightarrow> string \<Rightarrow> (jsval \<Rightarrow> bool) \<Rightarrow> js_error + bool" where
  "check body k bad = (case path body (tx0 k) of Inl e \<Rightarrow> Inl e | Inr v \<Rightarrow> Inr (bad v))"

fun violated :: "rule \<Rightarrow> jsval \<Rightarrow> js_error + bool" where
  "violated TriggerRule body = Inr (opt_prop body ''trigger'' \<noteq> JStr ''STORE_TRANSACTION'')"
| "violated ResponseRule body = Inr (opt_prop body ''response'' \<noteq> JStr ''TRANSACTIONS'')"
| "violated ContentIdRule body = Inr (\<not> truthy (opt_path body [''content'', ''id'']))"
| "violated TransactionsRule body =
     Inr (opt_path body [''content'', ''transactions'', ''length''] = JNum 0)"
| "violated TypeRule body = check body ''type'' (\<lambda>v. v \<noteq> JStr ''withdrawal'')"
| "violated CategoryRule body = check body ''category_id'' (\<lambda>v. v \<noteq> JNull)"
| "violated DescriptionRule body = check body ''description'' (\<lambda>v. \<not> truthy v)"
| "violated DestinationRule body = check body ''destination_name'' (\<lambda>v. \<not> truthy v)"

fun rule_message :: "rule \<Rightarrow> string" where
  "rule_message TriggerRule = ''trigger is not STORE_TRANSACTION. Request will not be processed''"
| "rule_message ResponseRule = ''trigger is not TRANSACTION. Request will not be processed''"
| "rule_message ContentIdRule = ''Missing content.id''"
| "rule_message TransactionsRule = ''No transactions are available in content.transactions''"
| "rule_message TypeRule =
     ''content.transactions[0].type has to be 'withdrawal'. Transaction will be ignored.''"
| "rule_message CategoryRule =
     ''content.transactions[0].category_id is already set. Transaction will be ignored.''"
| "rule_message DescriptionRule = ''Missing content.transactions[0].description''"
| "rule_message DestinationRule = ''Missing content.transactions[0].destination_name''"

text \<open>
  The chain as the specification words it: the rules are tried in order and the first one
  that is violated is reported, the later ones are not looked at.
\<close>

fun first_violation :: "rule list \<Rightarrow> jsval \<Rightarrow> js_error option" where
  "first_violation [] body = None"
| "first_violation (r # rs) body =
     (case violated r body of
        Inl e \<Rightarrow> Some e
      | Inr True \<Rightarrow> Some (WebhookException (rule_message r))
      | Inr False \<Rightarrow> first_violation rs body)"

section \<open>Example inputs\<close>

definition init_state :: app_state where
  "init_state = \<lparr>heap = (\<lambda>a. Map.empty), next_addr = 0, jobs = [], next_id = 0,
                  emitted = [], queue = [], started = 0, pending = 0, calls = []\<rparr>"

definition payload :: "jsval \<Rightarrow> jsval" where
  "payload content =
     JObj [(''trigger'', JStr ''STORE_TRANSACTION''), (''response'', JStr ''TRANSACTIONS''),
           (''content'', content)]"

definition transaction :: "(string \<times> jsval) list \<Rightarrow> jsval" where
  "transaction extra =
     JObj ([(''type'', JStr ''withdrawal''), (''description'', JStr ''coffee''),
            (''destination_name'', JStr ''Cafe'')] @ extra)"

text \<open>Scenario A of the specification.\<close>

definition scenario_A :: jsval where
  "scenario_A =
     payload (JObj [(''id'', JStr ''1''),
                    (''transactions'', JArr [transaction [(''category_id'', JNull)]])])"

text \<open>Scenario A without its list of transactions.\<close>

definition no_transactions :: jsval where
  "no_transactions = payload (JObj [(''id'', JStr ''1'')])"

text \<open>Scenario A with a first transaction that has no \<^verbatim>\<open>category_id\<close> field.\<close>

definition no_category_id :: jsval where
  "no_category_id =
     payload (JObj [(''id'', JStr ''1''), (''transactions'', JArr [transaction []])])"

text \<open>A body that breaks the content-id rule and the transactions rule at once.\<close>

definition two_violations :: jsval where
  "two_violations = payload (JObj [(''transactions'', JArr [])])"

text \<open>Services that find no category, and services that find one.\<close>

definition no_match :: services where
  "no_match =
     \<lparr>getCategories = Inr [(''Food'', JStr ''7'')],
      classify = (\<lambda>names dn d. Inr \<lparr>category = JNull, prompt = JStr ''p'', response = JStr ''r''\<rparr>),
      setCategory = (\<lambda>cid txs cat. Inr ())\<rparr>"

definition match_food :: services where
  "match_food =
     \<lparr>getCategories = Inr [(''Food'', JStr ''7'')],
      classify = (\<lambda>names dn d.
        Inr \<lparr>category = JStr ''Food'', prompt = JStr ''p'', response = JStr ''r''\<rparr>),
      setCategory = (\<lambda>cid txs cat. Inr ())\<rparr>"

text \<open>An example of the runtime's wording of the errors it raises itself.\<close>

definition node_text :: "js_error \<Rightarrow> string" where
  "node_text e =
     (case e of
        TypeError v k \<Rightarrow>
          ''Cannot read properties of '' @ (if v = JNull then ''null'' else ''undefined'') @
          '' (reading '' @ [CHR 0x27] @ k @ [CHR 0x27] @ '')''
      | WebhookException m \<Rightarrow> m
      | UnknownJob i \<Rightarrow> ''unknown job'')"

text \<open>
  Scenario A accepted in the initial state, where the queue is idle and its closure
  starts at once, and accepted once more straight after, where the queue is busy and the
  second closure waits.
\<close>

definition accepted_A :: app_state where
  "accepted_A = snd (handleWebhook scenario_A init_state)"

definition closure_A :: closure where
  "closure_A = last (queue accepted_A)"

definition accepted_B :: app_state where
  "accepted_B = snd (handleWebhook scenario_A accepted_A)"

definition closure_B :: closure where
  "closure_B = last (queue accepted_B)"

section \<open>What the queue starts\<close>

text \<open>
  The first part of a closure, and the start of the queue that runs it, change the
  status of one job and the log of calls and leave the heap, the ids and the data of the
  jobs alone.
\<close>

lemma find_map_update:
  assumes "\<And>x. job_id (g x) = job_id x"
  shows "find (\<lambda>j. job_id j = i) (map g js) = map_option g (find (\<lambda>j. job_id j = i) js)"
  using assms by (induction js) simp_all

lemma found_job_id: "find (\<lambda>j. job_id j = i) js = Some j \<Longrightarrow> job_id j = i"
  by (induction js) (simp_all split: if_splits)

lemma update_job_known:
  "find_job st i = Some j \<Longrightarrow>
   update_job i g st =
     (Inr (), st\<lparr>jobs := map (\<lambda>x. if job_id x = i then g x else x) (jobs st),
                 emitted := emitted st @ [(''job updated'', g j)]\<rparr>)"
  by (simp add: update_job_def)

lemma closure_start_frame:
  "heap (snd (closure_start f s)) = heap s"
  "next_addr (snd (closure_start f s)) = next_addr s"
  "next_id (snd (closure_start f s)) = next_id s"
  "queue (snd (closure_start f s)) = queue s"
  "started (snd (closure_start f s)) = started s"
  "pending (snd (closure_start f s)) = pending s"
  "map job_id (jobs (snd (closure_start f s))) = map job_id (jobs s)"
  "map data (jobs (snd (closure_start f s))) = map data (jobs s)"
  by (simp_all add: closure_start_def and_then_def logged_def ret_def setJobInProgress_def
        update_job_def find_job_def o_def
      split: option.split)

lemma closure_start_unknown:
  "find_job s (c_job f) = None \<Longrightarrow>
   closure_start f s =
     (Inl (UnknownJob (c_job f)), s\<lparr>calls := calls s @ [SetJobInProgress (c_job f)]\<rparr>)"
  by (simp add: closure_start_def and_then_def logged_def setJobInProgress_def
        update_job_def find_job_def)


lemma queue_start_returns: "fst (queue_start s) = Inr ()"
  by (simp add: queue_start_def)

lemma queue_start_frame:
  "heap (snd (queue_start s)) = heap s"
  "next_addr (snd (queue_start s)) = next_addr s"
  "next_id (snd (queue_start s)) = next_id s"
  "queue (snd (queue_start s)) = queue s"
  "map job_id (jobs (snd (queue_start s))) = map job_id (jobs s)"
  "map data (jobs (snd (queue_start s))) = map data (jobs s)"
  by (simp_all add: queue_start_def closure_start_frame)



section \<open>The handler follows the chain\<close>

text \<open>
  The handler, written in the source as a sequence of throws, agrees with the chain on
  every body: it throws what the chain reports, and when the chain reports nothing it
  creates the job and pushes the closure.
\<close>

lemma first_violation_nth:
  "i < length rs \<Longrightarrow> \<forall>j<i. violated (rs ! j) body = Inr False \<Longrightarrow>
   violated (rs ! i) body = Inr True \<Longrightarrow>
   first_violation rs body = Some (WebhookException (rule_message (rs ! i)))"
proof (induction rs arbitrary: i)
  case Nil
  then show ?case by simp
next
  case (Cons r rs)
  show ?case
  proof (cases i)
    case 0
    with Cons.prems show ?thesis by simp
  next
    case (Suc k)
    from Cons.prems(2) Suc have head: "violated r body = Inr False" by auto
    from Cons.prems(2) Suc have "\<forall>j<k. violated (rs ! j) body = Inr False" by auto
    moreover from Cons.prems Suc have "k < length rs" "violated (rs ! k) body = Inr True" by auto
    ultimately have "first_violation rs body = Some (WebhookException (rule_message (rs ! k)))"
      using Cons.IH[of k] by simp
    with head Suc show ?thesis by simp
  qed
qed

lemma first_violation_all_pass:
  "(first_violation rs body = None) = (\<forall>r\<in>set rs. violated r body = Inr False)"
  by (induction rs) (auto split: sum.splits bool.splits)

lemma handleWebhook_chain:
  "handleWebhook body st =
     (case first_violation rules body of
        Some e \<Rightarrow> (Inl e, st)
      | None \<Rightarrow>
          (let dn = projr (path body (tx0 ''destination_name''));
               d = projr (path body (tx0 ''description''));
               j = \<lparr>job_id = next_id st, status = Created, data = next_addr st\<rparr>;
               f = \<lparr>c_job = next_id st, c_destinationName = dn, c_description = d,
                    c_body = body\<rparr>
           in queue_push f
               (st\<lparr>heap := (heap st)(next_addr st :=
                       [''destinationName'' \<mapsto> dn, ''description'' \<mapsto> d]),
                  next_addr := Suc (next_addr st),
                  jobs := jobs st @ [j],
                  next_id := Suc (next_id st),
                  emitted := emitted st @ [(''job created'', j)],
                  calls := calls st @ [CreateJob (next_addr st), QueuePush f]\<rparr>)))"
  by (simp add: rules_def handleWebhook_def check_def and_then_def lift_def throw_def
        new_object_def logged_def createJob_def Let_def
      split: sum.split)

lemma queue_push_start:
  "queue_push f s = queue_start (s\<lparr>queue := queue s @ [f]\<rparr>)"
  by (simp add: queue_push_def and_then_def)

lemma queue_push_returns: "fst (queue_push f s) = Inr ()"
  by (simp add: queue_push_start queue_start_returns)

lemma queue_push_frame:
  "heap (snd (queue_push f s)) = heap s"
  "next_addr (snd (queue_push f s)) = next_addr s"
  "next_id (snd (queue_push f s)) = next_id s"
  "queue (snd (queue_push f s)) = queue s @ [f]"
  "map job_id (jobs (snd (queue_push f s))) = map job_id (jobs s)"
  "map data (jobs (snd (queue_push f s))) = map data (jobs s)"
  by (simp_all add: queue_push_start queue_start_frame)

lemma handleWebhook_accepts:
  "first_violation rules body = None \<Longrightarrow> fst (handleWebhook body st) = Inr ()"
  by (simp add: handleWebhook_chain Let_def queue_push_returns)

lemma accepted_fields:
  assumes "first_violation rules body = None"
  shows "\<exists>dn d. path body (tx0 ''destination_name'') = Inr dn \<and> truthy dn \<and>
                path body (tx0 ''description'') = Inr d \<and> truthy d"
proof -
  from assms have "\<forall>r\<in>set rules. violated r body = Inr False"
    by (simp only: first_violation_all_pass)
  then have "violated DescriptionRule body = Inr False"
    and "violated DestinationRule body = Inr False"
    by (simp_all add: rules_def)
  then show ?thesis
    by (auto simp: check_def split: sum.splits)
qed

lemma all_rules_pass:
  "(\<forall>r\<in>set rules. violated r body = Inr False) \<Longrightarrow> first_violation rules body = None"
  by (simp only: first_violation_all_pass)




lemma scenario_A_passes: "first_violation rules scenario_A = None"
  by (simp add: rules_def scenario_A_def payload_def transaction_def check_def tx0_def
        opt_prop_def get_prop_def nullish_def array_index_def digit_of_def)

lemma scenario_A_fields:
  "path scenario_A (tx0 ''destination_name'') = Inr (JStr ''Cafe'')"
  "path scenario_A (tx0 ''description'') = Inr (JStr ''coffee'')"
  by (simp_all add: scenario_A_def payload_def transaction_def tx0_def
        get_prop_def nullish_def array_index_def digit_of_def)

lemma accepted_closure:
  assumes pass: "first_violation rules body = None"
  shows "last (queue (snd (handleWebhook body st))) =
           \<lparr>c_job = next_id st,
            c_destinationName = projr (path body (tx0 ''destination_name'')),
            c_description = projr (path body (tx0 ''description'')), c_body = body\<rparr>"
  by (simp add: handleWebhook_chain pass Let_def queue_push_frame)

lemma closure_A_eq:
  "closure_A = \<lparr>c_job = 0, c_destinationName = JStr ''Cafe'', c_description = JStr ''coffee'',
                 c_body = scenario_A\<rparr>"
  by (simp add: closure_A_def accepted_A_def accepted_closure scenario_A_passes
        scenario_A_fields init_state_def)

lemma accepted_A_eq:
  "accepted_A =
     \<lparr>heap = (\<lambda>a. Map.empty)(0 := [''destinationName'' \<mapsto> JStr ''Cafe'',
                                     ''description'' \<mapsto> JStr ''coffee'']),
      next_addr = 1,
      jobs = [\<lparr>job_id = 0, status = InProgress, data = 0\<rparr>],
      next_id = 1,
      emitted = [(''job created'', \<lparr>job_id = 0, status = Created, data = 0\<rparr>),
                 (''job updated'', \<lparr>job_id = 0, status = InProgress, data = 0\<rparr>)],
      queue = [closure_A],
      started = 1,
      pending = 1,
      calls = [CreateJob 0, QueuePush closure_A, SetJobInProgress 0, GetCategories]\<rparr>"
  by (simp add: closure_A_eq)
     (simp add: accepted_A_def handleWebhook_chain scenario_A_passes scenario_A_fields
        init_state_def Let_def queue_push_start queue_start_def closure_start_def and_then_def
        logged_def ret_def setJobInProgress_def update_job_def find_job_def)

lemma closure_B_eq:
  "closure_B = \<lparr>c_job = 1, c_destinationName = JStr ''Cafe'', c_description = JStr ''coffee'',
                 c_body = scenario_A\<rparr>"
  by (simp add: closure_B_def accepted_B_def accepted_closure scenario_A_passes
        scenario_A_fields accepted_A_eq)

lemma accepted_B_eq:
  "accepted_B =
     \<lparr>heap = (\<lambda>a. Map.empty)(0 := [''destinationName'' \<mapsto> JStr ''Cafe'',
                                     ''description'' \<mapsto> JStr ''coffee''],
                                1 := [''destinationName'' \<mapsto> JStr ''Cafe'',
                                      ''description'' \<mapsto> JStr ''coffee'']),
      next_addr = 2,
      jobs = [\<lparr>job_id = 0, status = InProgress, data = 0\<rparr>,
              \<lparr>job_id = 1, status = Created, data = 1\<rparr>],
      next_id = 2,
      emitted = [(''job created'', \<lparr>job_id = 0, status = Created, data = 0\<rparr>),
                 (''job updated'', \<lparr>job_id = 0, status = InProgress, data = 0\<rparr>),
                 (''job created'', \<lparr>job_id = 1, status = Created, data = 1\<rparr>)],
      queue = [closure_A, closure_B],
      started = 1,
      pending = 1,
      calls = [CreateJob 0, QueuePush closure_A, SetJobInProgress 0, GetCategories,
               CreateJob 1, QueuePush closure_B]\<rparr>"
  by (simp add: closure_B_eq)
     (simp add: accepted_B_def handleWebhook_chain scenario_A_passes scenario_A_fields
        accepted_A_eq Let_def queue_push_start queue_start_def)


section \<open>The reply of the endpoint\<close>

text \<open>
  Where the condition of a check holds and the conditions of all checks before it do
  not, the handler rejects with the message of that check alone, whatever the later
  checks would say, and the state is as it was.
\<close>

lemma first_violated_rule_is_reported:
  assumes "i < length rules"
    and "\<forall>j<i. violated (rules ! j) body = Inr False"
    and "violated (rules ! i) body = Inr True"
  shows "handleWebhook body st = (Inl (WebhookException (rule_message (rules ! i))), st)"
proof -
  from assms
  have "first_violation rules body = Some (WebhookException (rule_message (rules ! i)))"
    by (rule first_violation_nth)
  then show ?thesis
    by (simp add: handleWebhook_chain)
qed

text \<open>An example: a body that breaks two rules gets the message of the first.\<close>

lemma first_violated_rule_is_reported_example:
  "violated ContentIdRule two_violations = Inr True \<and>
   violated TransactionsRule two_violations = Inr True \<and>
   handleWebhook two_violations init_state =
     (Inl (WebhookException ''Missing content.id''), init_state)"
proof -
  have len: "2 < length rules"
    by (simp add: rules_def)
  have before: "\<forall>j<2. violated (rules ! j) two_violations = Inr False"
    by (auto simp: less_2_cases_iff rules_def two_violations_def payload_def opt_prop_def
          nullish_def)
  have here: "violated (rules ! 2) two_violations = Inr True"
    by (simp add: rules_def two_violations_def payload_def opt_prop_def nullish_def)
  have later: "violated TransactionsRule two_violations = Inr True"
    by (simp add: two_violations_def payload_def opt_prop_def nullish_def)
  from first_violated_rule_is_reported[OF len before here, of init_state] here later
  show ?thesis
    by (simp add: rules_def)
qed

lemma onWebhook_rejects:
  "first_violation rules body = Some e \<Longrightarrow>
   onWebhook rt body st = (\<lparr>res_status = 400, res_body = message rt e\<rparr>, st)"
  by (simp add: onWebhook_def handleWebhook_chain)

lemma no_transactions_chain:
  "first_violation rules no_transactions = Some (TypeError JUndefined ''0'')"
  by (simp add: rules_def no_transactions_def payload_def check_def tx0_def
        opt_prop_def get_prop_def nullish_def)

lemma onWebhook_accepts:
  "first_violation rules body = None \<Longrightarrow>
   onWebhook rt body st =
     (\<lparr>res_status = 200, res_body = ''Queued''\<rparr>, snd (handleWebhook body st))"
  using handleWebhook_accepts[of body st]
  by (cases "handleWebhook body st") (simp add: onWebhook_def)

lemma rule_messages_are_not_the_type_error:
  "rule_message r \<noteq> ''Cannot read properties of undefined (reading '0')''"
  by (cases r) simp_all

text \<open>
  Claim C1.  The claim has every payload that violates several rules rejected with the
  message of the first of them.  Scenario A without its list of transactions has no
  transaction list and no first transaction, so it violates the rule on the list and
  all rules after it; the check of the list does not fire on it, the chain ends in the
  TypeError of reading element 0 of \<^verbatim>\<open>undefined\<close>, and what the handler throws is the
  message of no rule.
\<close>

theorem absent_list_gets_no_rule_message:
  "opt_path no_transactions [''content'', ''transactions''] = JUndefined \<and>
   first_violation rules no_transactions = Some (TypeError JUndefined ''0'') \<and>
   (\<forall>r. handleWebhook no_transactions init_state \<noteq>
          (Inl (WebhookException (rule_message r)), init_state))"
proof -
  have "opt_path no_transactions [''content'', ''transactions''] = JUndefined"
    by (simp add: no_transactions_def payload_def opt_prop_def nullish_def)
  moreover have "\<forall>r. handleWebhook no_transactions init_state \<noteq>
          (Inl (WebhookException (rule_message r)), init_state)"
    by (simp add: handleWebhook_chain no_transactions_chain)
  ultimately show ?thesis
    using no_transactions_chain by (intro conjI)
qed

text \<open>
  Claim C2.  The claim has every payload that fails a rule, one without the list of
  transactions included, rejected with the message of that rule.  On Scenario A without
  its list the transactions check does not fire (the length of nothing is not 0), and
  the read of the first transaction raises a TypeError in place of a rule's message.
\<close>

theorem missing_transactions_raise_type_error:
  "handleWebhook no_transactions init_state = (Inl (TypeError JUndefined ''0''), init_state) \<and>
   opt_path no_transactions [''content'', ''transactions''] = JUndefined \<and>
   violated TransactionsRule no_transactions = Inr False"
  by (simp add: handleWebhook_chain no_transactions_chain)
     (simp add: no_transactions_def payload_def opt_prop_def nullish_def)

text \<open>
  Claim C9.  An accepted body is answered \<^verbatim>\<open>Queued\<close> (\<open>onWebhook_accepts\<close>), and a body
  on which the condition of a check holds is answered 400 with the message of the first
  such check (\<open>onWebhook_rejects\<close>).  But the claim has every payload that fails
  validation answered with the message of the violated rule, and Scenario A without its
  list of transactions is answered 400 with the text of a TypeError, which is the message
  of no rule.
\<close>

theorem absent_list_reply_is_no_rule_message:
  "onWebhook node_text no_transactions init_state =
     (\<lparr>res_status = 400, res_body = ''Cannot read properties of undefined (reading '0')''\<rparr>,
      init_state) \<and>
   (\<forall>r. res_body (fst (onWebhook node_text no_transactions init_state)) \<noteq> rule_message r)"
proof -
  have reply: "onWebhook node_text no_transactions init_state =
     (\<lparr>res_status = 400, res_body = ''Cannot read properties of undefined (reading '0')''\<rparr>,
      init_state)"
    by (simp add: onWebhook_rejects[OF no_transactions_chain] node_text_def)
  have "\<forall>r. res_body (fst (onWebhook node_text no_transactions init_state)) \<noteq> rule_message r"
    unfolding reply using rule_messages_are_not_the_type_error by (simp add: eq_commute)
  with reply show ?thesis
    by (rule conjI)
qed

lemma thrown_is_first_violation:
  "fst (handleWebhook body st) = Inl e \<Longrightarrow> first_violation rules body = Some e"
  using handleWebhook_accepts[of body st]
  by (cases "first_violation rules body") (simp_all add: handleWebhook_chain)

lemma absent_transactions_chain:
  assumes "first_violation (take 3 rules) body = None"
    and "opt_path body [''content'', ''transactions''] = JUndefined"
  shows "first_violation rules body = Some (TypeError JUndefined ''0'')"
proof -
  from assms(1) have id: "truthy (opt_prop (opt_prop body ''content'') ''id'')"
    and tr: "opt_prop body ''trigger'' = JStr ''STORE_TRANSACTION''"
    and re: "opt_prop body ''response'' = JStr ''TRANSACTIONS''"
    by (simp_all add: rules_def split: bool.splits)
  from id have nn: "\<not> nullish body" "\<not> nullish (opt_prop body ''content'')"
    by (auto simp: opt_prop_def split: if_splits)
  from assms(2) have tx: "opt_prop (opt_prop body ''content'') ''transactions'' = JUndefined"
    by simp
  from nn tx have "path body (tx0 ''type'') = Inl (TypeError JUndefined ''0'')"
    by (simp add: tx0_def get_prop_def opt_prop_def nullish_def)
  with id tr re tx show ?thesis
    by (simp add: rules_def check_def opt_prop_def nullish_def)
qed

text \<open>
  Claim C10.  Whatever \<^verbatim>\<open>#handleWebhook\<close> throws, \<^verbatim>\<open>#onWebhook\<close> answers 400 with the
  message of that error and the state is as before the request.  In particular a body
  that passes the first three checks and has no list of transactions gets the message of
  the TypeError raised by reading element 0 of \<^verbatim>\<open>undefined\<close>.  The endpoint always answers,
  with 200 or 400.
\<close>

theorem every_exception_becomes_a_400:
  "(fst (handleWebhook body st) = Inl e \<longrightarrow>
      onWebhook rt body st = (\<lparr>res_status = 400, res_body = message rt e\<rparr>, st)) \<and>
   (first_violation (take 3 rules) body = None \<and>
    opt_path body [''content'', ''transactions''] = JUndefined \<longrightarrow>
      onWebhook rt body st =
        (\<lparr>res_status = 400, res_body = rt (TypeError JUndefined ''0'')\<rparr>, st)) \<and>
   (res_status (fst (onWebhook rt body st)) = 200 \<or>
    res_status (fst (onWebhook rt body st)) = 400)"
proof (intro conjI impI)
  assume "fst (handleWebhook body st) = Inl e"
  then have "first_violation rules body = Some e"
    by (rule thrown_is_first_violation)
  then show "onWebhook rt body st = (\<lparr>res_status = 400, res_body = message rt e\<rparr>, st)"
    by (rule onWebhook_rejects)
next
  assume "first_violation (take 3 rules) body = None \<and>
    opt_path body [''content'', ''transactions''] = JUndefined"
  then have "first_violation rules body = Some (TypeError JUndefined ''0'')"
    by (simp add: absent_transactions_chain)
  then show "onWebhook rt body st =
        (\<lparr>res_status = 400, res_body = rt (TypeError JUndefined ''0'')\<rparr>, st)"
    by (simp add: onWebhook_rejects)
next
  show "res_status (fst (onWebhook rt body st)) = 200 \<or>
    res_status (fst (onWebhook rt body st)) = 400"
    by (cases "first_violation rules body") (simp_all add: onWebhook_accepts onWebhook_rejects)
qed

theorem every_exception_becomes_a_400_witness:
  "fst (handleWebhook no_transactions init_state) = Inl (TypeError JUndefined ''0'') \<and>
   onWebhook node_text no_transactions init_state =
     (\<lparr>res_status = 400, res_body = ''Cannot read properties of undefined (reading '0')''\<rparr>,
      init_state) \<and>
   onWebhook node_text no_transactions init_state =
     (\<lparr>res_status = 400, res_body = node_text (TypeError JUndefined ''0'')\<rparr>, init_state)"
proof -
  note all = every_exception_becomes_a_400[where body = no_transactions and st = init_state
      and rt = node_text and e = "TypeError JUndefined ''0''"]
  have thrown: "fst (handleWebhook no_transactions init_state) = Inl (TypeError JUndefined ''0'')"
    by (simp add: handleWebhook_chain no_transactions_chain)
  from all[THEN conjunct1, THEN mp, OF thrown]
  have 1: "onWebhook node_text no_transactions init_state =
     (\<lparr>res_status = 400, res_body = ''Cannot read properties of undefined (reading '0')''\<rparr>,
      init_state)"
    by (simp add: node_text_def)
  have "first_violation (take 3 rules) no_transactions = None \<and>
        opt_path no_transactions [''content'', ''transactions''] = JUndefined"
    by (simp add: rules_def no_transactions_def payload_def opt_prop_def nullish_def)
  from all[THEN conjunct2, THEN conjunct1, THEN mp, OF this]
  have 2: "onWebhook node_text no_transactions init_state =
     (\<lparr>res_status = 400, res_body = node_text (TypeError JUndefined ''0'')\<rparr>, init_state)" .
  from thrown 1 2 show ?thesis
    by (intro conjI)
qed

section \<open>The category check\<close>

lemma tx0_readable:
  "path body (tx0 k) = Inr v \<Longrightarrow> \<exists>c. path body (tx0 k') = Inr c"
  by (auto simp: tx0_def get_prop_def split: sum.splits if_splits)

lemma path_not_webhook: "path v ks \<noteq> Inl (WebhookException m)"
  by (induction ks arbitrary: v) (simp_all add: get_prop_def split: sum.splits)

lemma violated_not_webhook: "violated r body \<noteq> Inl (WebhookException m)"
  by (cases r) (auto simp: check_def path_not_webhook split: sum.splits)

lemma reported_message:
  "first_violation rs body = Some (WebhookException m) \<Longrightarrow> m \<in> rule_message ` set rs"
proof (induction rs)
  case Nil
  then show ?case by simp
next
  case (Cons r rs)
  show ?case
  proof (cases "violated r body")
    case (Inl e)
    with Cons.prems violated_not_webhook[of r body m] show ?thesis
      by simp
  next
    case (Inr b)
    with Cons show ?thesis
      by (cases b) simp_all
  qed
qed

lemma later_rules_other_message:
  "first_violation [DescriptionRule, DestinationRule] body \<noteq>
     Some (WebhookException (rule_message CategoryRule))"
proof
  assume "first_violation [DescriptionRule, DestinationRule] body =
     Some (WebhookException (rule_message CategoryRule))"
  then have "rule_message CategoryRule \<in> rule_message ` set [DescriptionRule, DestinationRule]"
    by (rule reported_message)
  then show False
    by simp
qed

lemma first_violation_append:
  "first_violation (xs @ ys) body =
     (case first_violation xs body of Some e \<Rightarrow> Some e | None \<Rightarrow> first_violation ys body)"
  by (induction xs) (simp_all split: sum.splits bool.splits)

lemma rules_from_category:
  "first_violation (take 5 rules) body = None \<Longrightarrow>
   first_violation rules body =
     first_violation [CategoryRule, DescriptionRule, DestinationRule] body"
proof -
  assume before: "first_violation (take 5 rules) body = None"
  have "rules = take 5 rules @ [CategoryRule, DescriptionRule, DestinationRule]"
    by (simp add: rules_def)
  then have "first_violation rules body =
      first_violation (take 5 rules @ [CategoryRule, DescriptionRule, DestinationRule]) body"
    by simp
  with before show ?thesis
    by (simp only: first_violation_append option.case)
qed

lemma no_category_id_before: "first_violation (take 5 rules) no_category_id = None"
  by (simp add: rules_def no_category_id_def payload_def transaction_def check_def tx0_def
        opt_prop_def get_prop_def nullish_def array_index_def digit_of_def)

lemma no_category_id_read: "path no_category_id (tx0 ''category_id'') = Inr JUndefined"
  by (simp add: no_category_id_def payload_def transaction_def tx0_def
        get_prop_def nullish_def array_index_def digit_of_def)

text \<open>
  Claim C6, as stated, fails: Scenario A with a first transaction that has no
  \<^verbatim>\<open>category_id\<close> field passes the checks before the category check and is rejected
  by it.
\<close>

theorem absent_category_id_is_rejected:
  "first_violation (take 5 rules) no_category_id = None \<and>
   path no_category_id (tx0 ''category_id'') = Inr JUndefined \<and>
   handleWebhook no_category_id init_state =
     (Inl (WebhookException
        ''content.transactions[0].category_id is already set. Transaction will be ignored.''),
      init_state)"
proof -
  have "first_violation rules no_category_id = Some (WebhookException (rule_message CategoryRule))"
    by (simp add: rules_from_category[OF no_category_id_before] check_def no_category_id_read)
  then show ?thesis
    by (simp add: handleWebhook_chain no_category_id_before no_category_id_read)
qed

text \<open>
  Claim C6, amended.  On a body that passes the checks before it, the category check
  rejects exactly when \<^verbatim>\<open>category_id\<close> of the first transaction is not \<^verbatim>\<open>null\<close>: a value
  other than \<^verbatim>\<open>null\<close> and an absent field are rejected alike, and only \<^verbatim>\<open>null\<close> passes.
\<close>

theorem category_rule_rejects_all_but_null:
  assumes "first_violation (take 5 rules) body = None"
  shows "\<exists>c. path body (tx0 ''category_id'') = Inr c \<and>
             violated CategoryRule body = Inr (c \<noteq> JNull) \<and>
             (handleWebhook body st =
                (Inl (WebhookException (rule_message CategoryRule)), st)) = (c \<noteq> JNull)"
proof -
  from assms have "\<forall>r\<in>set (take 5 rules). violated r body = Inr False"
    by (simp only: first_violation_all_pass)
  then have "violated TypeRule body = Inr False"
    by (simp add: rules_def)
  then obtain v where "path body (tx0 ''type'') = Inr v"
    by (auto simp: check_def split: sum.splits)
  from tx0_readable[OF this] obtain c where c: "path body (tx0 ''category_id'') = Inr c" ..
  then have viol: "violated CategoryRule body = Inr (c \<noteq> JNull)"
    by (simp add: check_def)
  have chain: "first_violation rules body =
      (if c \<noteq> JNull then Some (WebhookException (rule_message CategoryRule))
       else first_violation [DescriptionRule, DestinationRule] body)"
    by (simp add: rules_from_category[OF assms] check_def c)
  have "(handleWebhook body st =
           (Inl (WebhookException (rule_message CategoryRule)), st)) = (c \<noteq> JNull)"
  proof (cases "c = JNull")
    case False
    with chain show ?thesis
      by (simp add: handleWebhook_chain)
  next
    case True
    with chain have "first_violation rules body =
        first_violation [DescriptionRule, DestinationRule] body"
      by (simp del: first_violation.simps)
    with later_rules_other_message[of body] have "first_violation rules body \<noteq>
        Some (WebhookException (rule_message CategoryRule))"
      by (simp only: not_False_eq_True)
    with True thrown_is_first_violation[of body st "WebhookException (rule_message CategoryRule)"]
    show ?thesis
      by auto
  qed
  with c viol show ?thesis
    by simp
qed

theorem category_rule_rejects_all_but_null_witness:
  "violated CategoryRule no_category_id = Inr True \<and>
   violated CategoryRule scenario_A = Inr False \<and>
   fst (handleWebhook scenario_A init_state) = Inr ()"
proof -
  from category_rule_rejects_all_but_null[OF no_category_id_before, of init_state]
  have 1: "violated CategoryRule no_category_id = Inr True"
    by (simp add: no_category_id_read)
  have before: "first_violation (take 5 rules) scenario_A = None"
    by (simp add: rules_def scenario_A_def payload_def transaction_def check_def tx0_def
        opt_prop_def get_prop_def nullish_def array_index_def digit_of_def)
  have read: "path scenario_A (tx0 ''category_id'') = Inr JNull"
    by (simp add: scenario_A_def payload_def transaction_def tx0_def
        get_prop_def nullish_def array_index_def digit_of_def)
  from category_rule_rejects_all_but_null[OF before, of init_state]
  have 2: "violated CategoryRule scenario_A = Inr False"
    by (simp add: read)
  have 3: "fst (handleWebhook scenario_A init_state) = Inr ()"
    by (rule handleWebhook_accepts[OF scenario_A_passes])
  from 1 2 3 show ?thesis
    by simp
qed

section \<open>The queued closure, step by step\<close>

text \<open>
  What a run of the closure leaves behind when the services answer, and what it leaves
  of the heap wherever it stops.
\<close>

lemma run_closure_succeeds:
  assumes found: "find_job s (c_job f) = Some j"
    and cats: "getCategories svc = Inr cats"
    and cls: "classify svc (map (\<lambda>kv. JStr (fst kv)) cats) (c_destinationName f)
                (c_description f) = Inr r"
    and commit: "truthy (category r) \<longrightarrow>
        path (c_body f) [''content'', ''id''] = Inr cid \<and>
        path (c_body f) [''content'', ''transactions''] = Inr txs \<and>
        setCategory svc cid txs (map_get cats (category r)) = Inr ()"
  shows "run_closure svc f s =
     (Inr (),
      s\<lparr>heap := (heap s)(next_addr s :=
                (heap s (data j))(''category'' \<mapsto> category r, ''prompt'' \<mapsto> prompt r,
                                  ''response'' \<mapsto> response r)),
        next_addr := Suc (next_addr s),
        jobs := map (\<lambda>x. if job_id x = c_job f
                          then x\<lparr>status := Finished, data := next_addr s\<rparr> else x) (jobs s),
        emitted := emitted s @
          [(''job updated'', j\<lparr>status := (if status j = Created then InProgress else status j)\<rparr>),
           (''job updated'', j\<lparr>status := (if status j = Created then InProgress else status j),
                                data := next_addr s\<rparr>),
           (''job updated'', j\<lparr>status := Finished, data := next_addr s\<rparr>)],
        calls := calls s @
          [SetJobInProgress (c_job f), GetCategories,
           Classify (map (\<lambda>kv. JStr (fst kv)) cats) (c_destinationName f) (c_description f),
           UpdateJobData (c_job f) (next_addr s)] @
          (if truthy (category r) then [SetCategory cid txs (map_get cats (category r))] else []) @
          [SetJobFinished (c_job f)]\<rparr>)"
proof (cases "truthy (category r)")
  case True
  with commit have c: "path (c_body f) [''content'', ''id''] = Inr cid"
        "path (c_body f) [''content'', ''transactions''] = Inr txs"
        "setCategory svc cid txs (map_get cats (category r)) = Inr ()"
    by simp_all
  from found have f0: "find (\<lambda>j. job_id j = c_job f) (jobs s) = Some j"
    by (simp add: find_job_def)
  show ?thesis
    unfolding run_closure_def closure_start_def closure_rest_def
    by (simp add: and_then_def logged_def lift_def ret_def setJobInProgress_def
        updateJobData_def setJobFinished_def update_job_def find_job_def job_data_def
        new_object_def set_field_def find_map_update f0 found_job_id[OF f0] o_def cats cls c True Let_def
        del: path.simps)
next
  case False
  from found have f0: "find (\<lambda>j. job_id j = c_job f) (jobs s) = Some j"
    by (simp add: find_job_def)
  show ?thesis
    unfolding run_closure_def closure_start_def closure_rest_def
    by (simp add: and_then_def logged_def lift_def ret_def setJobInProgress_def
        updateJobData_def setJobFinished_def update_job_def find_job_def job_data_def
        new_object_def set_field_def find_map_update f0 found_job_id[OF f0] o_def cats cls False Let_def
        del: path.simps)
qed

lemma run_closure_unknown_job:
  "find_job s (c_job f) = None \<Longrightarrow> heap (snd (run_closure svc f s)) = heap s"
  unfolding run_closure_def closure_start_def closure_rest_def
  by (simp add: and_then_def logged_def setJobInProgress_def update_job_def find_job_def)

lemma run_closure_no_categories:
  "find_job s (c_job f) = Some j \<Longrightarrow> getCategories svc = Inl e \<Longrightarrow>
   heap (snd (run_closure svc f s)) = heap s"
  unfolding run_closure_def closure_start_def closure_rest_def
  by (simp add: and_then_def logged_def lift_def ret_def setJobInProgress_def update_job_def
        find_job_def)

lemma run_closure_no_classification:
  "find_job s (c_job f) = Some j \<Longrightarrow> getCategories svc = Inr cats \<Longrightarrow>
   classify svc (map (\<lambda>kv. JStr (fst kv)) cats) (c_destinationName f) (c_description f) = Inl e \<Longrightarrow>
   heap (snd (run_closure svc f s)) = heap s"
  unfolding run_closure_def closure_start_def closure_rest_def
  by (simp add: and_then_def logged_def lift_def ret_def setJobInProgress_def update_job_def
        find_job_def Let_def)

lemma run_closure_updated:
  assumes found: "find_job s (c_job f) = Some j"
    and cats: "getCategories svc = Inr cats"
    and cls: "classify svc (map (\<lambda>kv. JStr (fst kv)) cats) (c_destinationName f)
                (c_description f) = Inr r"
  shows "heap (snd (run_closure svc f s)) =
           (heap s)(next_addr s :=
              (heap s (data j))(''category'' \<mapsto> category r, ''prompt'' \<mapsto> prompt r,
                                ''response'' \<mapsto> response r))"
proof -
  from found have f0: "find (\<lambda>j. job_id j = c_job f) (jobs s) = Some j"
    by (simp add: find_job_def)
  show ?thesis
    unfolding run_closure_def closure_start_def closure_rest_def
    by (simp add: and_then_def logged_def lift_def ret_def setJobInProgress_def
        updateJobData_def setJobFinished_def update_job_def find_job_def job_data_def
        new_object_def set_field_def find_map_update f0 found_job_id[OF f0] o_def cats cls
        Let_def
      del: path.simps split: sum.split)
qed

lemma run_closure_heap_frame:
  assumes "b \<noteq> next_addr s"
  shows "heap (snd (run_closure svc f s)) b = heap s b"
proof (cases "find_job s (c_job f)")
  case None
  then show ?thesis
    by (simp add: run_closure_unknown_job)
next
  case (Some j)
  show ?thesis
  proof (cases "getCategories svc")
    case (Inl e)
    with Some show ?thesis
      by (simp add: run_closure_no_categories)
  next
    case (Inr cats)
    show ?thesis
    proof (cases "classify svc (map (\<lambda>kv. JStr (fst kv)) cats) (c_destinationName f)
                    (c_description f)")
      case (Inl e)
      with Some Inr show ?thesis
        by (simp add: run_closure_no_classification)
    next
      case r: (Inr r)
      from assms show ?thesis
        by (simp add: run_closure_updated[OF Some Inr r])
    qed
  qed
qed

lemma accepted_content:
  assumes pass: "first_violation rules body = None"
  shows "\<exists>cid txs. path body [''content'', ''id''] = Inr cid \<and>
                   path body [''content'', ''transactions''] = Inr txs"
proof -
  from pass have "\<forall>r\<in>set rules. violated r body = Inr False"
    by (simp only: first_violation_all_pass)
  then have "violated ContentIdRule body = Inr False"
    by (simp add: rules_def)
  then have "truthy (opt_prop (opt_prop body ''content'') ''id'')"
    by simp
  then have "\<not> nullish body" "\<not> nullish (opt_prop body ''content'')"
    by (auto simp: opt_prop_def split: if_splits)
  then show ?thesis
    by (simp add: get_prop_def opt_prop_def)
qed

text \<open>
  Claim C4.  Take the closure pushed for an accepted body and run it in a state where its
  job is still Created, with services that answer.  Then it completes, and the calls it
  makes are, in this order: mark the job in progress, fetch the categories, classify with
  the category names, the destination name and the description of the body, update the
  job's data, set the category (with the content id and the transactions of the body and
  the identifier the taxonomy gives the chosen name) exactly when the chosen category is
  truthy, and mark the job finished.  The new data object is the old one with
  \<^verbatim>\<open>category\<close>, \<^verbatim>\<open>prompt\<close> and \<^verbatim>\<open>response\<close> added, and the job ends Finished with it.
\<close>

theorem closure_steps_in_order:
  assumes accepted: "\<forall>r\<in>set rules. violated r body = Inr False"
    and f: "f = last (queue (snd (handleWebhook body st0)))"
    and found: "find_job s (c_job f) = Some j"
    and created: "status j = Created"
    and cats: "getCategories svc = Inr cats"
    and cls: "classify svc (map (\<lambda>kv. JStr (fst kv)) cats) (c_destinationName f)
                (c_description f) = Inr r"
    and commits: "\<forall>cid txs c. setCategory svc cid txs c = Inr ()"
  shows "\<exists>cid txs s'.
      path body (tx0 ''destination_name'') = Inr (c_destinationName f) \<and>
      path body (tx0 ''description'') = Inr (c_description f) \<and>
      path body [''content'', ''id''] = Inr cid \<and>
      path body [''content'', ''transactions''] = Inr txs \<and>
      run_closure svc f s = (Inr (), s') \<and>
      calls s' = calls s @
        [SetJobInProgress (c_job f), GetCategories,
         Classify (map (\<lambda>kv. JStr (fst kv)) cats) (c_destinationName f) (c_description f),
         UpdateJobData (c_job f) (next_addr s)] @
        (if truthy (category r) then [SetCategory cid txs (map_get cats (category r))] else []) @
        [SetJobFinished (c_job f)] \<and>
      emitted s' = emitted s @
        [(''job updated'', j\<lparr>status := InProgress\<rparr>),
         (''job updated'', j\<lparr>status := InProgress, data := next_addr s\<rparr>),
         (''job updated'', j\<lparr>status := Finished, data := next_addr s\<rparr>)] \<and>
      heap s' (next_addr s) =
        (heap s (data j))(''category'' \<mapsto> category r, ''prompt'' \<mapsto> prompt r,
                          ''response'' \<mapsto> response r) \<and>
      find_job s' (c_job f) = Some (j\<lparr>status := Finished, data := next_addr s\<rparr>)"
proof -
  from accepted have pass: "first_violation rules body = None"
    by (rule all_rules_pass)
  from accepted_fields[OF pass] obtain dn d where
    dn: "path body (tx0 ''destination_name'') = Inr dn" and
    d: "path body (tx0 ''description'') = Inr d"
    by (elim exE conjE)
  from accepted_content[OF pass] obtain cid txs where
    cid: "path body [''content'', ''id''] = Inr cid" and
    txs: "path body [''content'', ''transactions''] = Inr txs"
    by (elim exE conjE)
  from f have fields: "c_destinationName f = dn" "c_description f = d" "c_body f = body"
    by (simp_all add: accepted_closure[OF pass] dn d)
  from commits have commit: "truthy (category r) \<longrightarrow>
        path (c_body f) [''content'', ''id''] = Inr cid \<and>
        path (c_body f) [''content'', ''transactions''] = Inr txs \<and>
        setCategory svc cid txs (map_get cats (category r)) = Inr ()"
    using cid txs fields(3) by (simp del: path.simps)
  note run = run_closure_succeeds[OF found cats cls commit]
  from found have f0: "find (\<lambda>j. job_id j = c_job f) (jobs s) = Some j"
    by (simp add: find_job_def)
  show ?thesis
  proof (intro exI conjI)
    show "path body (tx0 ''destination_name'') = Inr (c_destinationName f)"
      by (simp add: dn fields)
    show "path body (tx0 ''description'') = Inr (c_description f)"
      by (simp add: d fields)
    show "path body [''content'', ''id''] = Inr cid"
      by (rule cid)
    show "path body [''content'', ''transactions''] = Inr txs"
      by (rule txs)
    show "run_closure svc f s = (Inr (), snd (run_closure svc f s))"
      by (simp add: run)
    show "calls (snd (run_closure svc f s)) = calls s @
        [SetJobInProgress (c_job f), GetCategories,
         Classify (map (\<lambda>kv. JStr (fst kv)) cats) (c_destinationName f) (c_description f),
         UpdateJobData (c_job f) (next_addr s)] @
        (if truthy (category r) then [SetCategory cid txs (map_get cats (category r))] else []) @
        [SetJobFinished (c_job f)]"
      by (simp add: run)
    show "emitted (snd (run_closure svc f s)) = emitted s @
        [(''job updated'', j\<lparr>status := InProgress\<rparr>),
         (''job updated'', j\<lparr>status := InProgress, data := next_addr s\<rparr>),
         (''job updated'', j\<lparr>status := Finished, data := next_addr s\<rparr>)]"
      by (simp add: run created)
    show "heap (snd (run_closure svc f s)) (next_addr s) =
        (heap s (data j))(''category'' \<mapsto> category r, ''prompt'' \<mapsto> prompt r,
                          ''response'' \<mapsto> response r)"
      by (simp add: run)
    show "find_job (snd (run_closure svc f s)) (c_job f) =
        Some (j\<lparr>status := Finished, data := next_addr s\<rparr>)"
      by (simp add: run find_job_def find_map_update f0 found_job_id[OF f0])
  qed
qed

lemma run_closure_fails_early:
  "find_job s (c_job f) = Some j \<Longrightarrow> getCategories svc = Inl e \<Longrightarrow>
   fst (run_closure svc f s) = Inl e"
  "find_job s (c_job f) = Some j \<Longrightarrow> getCategories svc = Inr cats \<Longrightarrow>
   classify svc (map (\<lambda>kv. JStr (fst kv)) cats) (c_destinationName f) (c_description f) = Inl e \<Longrightarrow>
   fst (run_closure svc f s) = Inl e"
  unfolding run_closure_def closure_start_def closure_rest_def
  by (simp_all add: and_then_def logged_def lift_def ret_def setJobInProgress_def
        update_job_def find_job_def Let_def)

lemma run_closure_finished:
  assumes found: "find_job s (c_job f) = Some j"
    and cats: "getCategories svc = Inr cats"
    and cls: "classify svc (map (\<lambda>kv. JStr (fst kv)) cats) (c_destinationName f)
                (c_description f) = Inr r"
  shows "fst (run_closure svc f s) = Inr () \<longrightarrow>
         find_job (snd (run_closure svc f s)) (c_job f) =
           Some (j\<lparr>status := Finished, data := next_addr s\<rparr>)"
proof -
  from found have f0: "find (\<lambda>j. job_id j = c_job f) (jobs s) = Some j"
    by (simp add: find_job_def)
  show ?thesis
    unfolding run_closure_def closure_start_def closure_rest_def
    by (simp add: and_then_def logged_def lift_def ret_def setJobInProgress_def
        updateJobData_def setJobFinished_def update_job_def find_job_def job_data_def
        new_object_def set_field_def find_map_update f0 found_job_id[OF f0] o_def cats cls
        Let_def
      del: path.simps split: sum.split)
qed

lemma run_closure_completed:
  assumes found: "find_job s (c_job f) = Some j"
    and completed: "fst (run_closure svc f s) = Inr ()"
  shows "\<exists>cats r.
           getCategories svc = Inr cats \<and>
           classify svc (map (\<lambda>kv. JStr (fst kv)) cats) (c_destinationName f)
             (c_description f) = Inr r \<and>
           find_job (snd (run_closure svc f s)) (c_job f) =
             Some (j\<lparr>status := Finished, data := next_addr s\<rparr>) \<and>
           heap (snd (run_closure svc f s)) =
             (heap s)(next_addr s :=
               (heap s (data j))(''category'' \<mapsto> category r, ''prompt'' \<mapsto> prompt r,
                                 ''response'' \<mapsto> response r))"
proof (cases "getCategories svc")
  case (Inl e)
  with found completed show ?thesis
    by (simp add: run_closure_fails_early)
next
  case cats: (Inr cats)
  show ?thesis
  proof (cases "classify svc (map (\<lambda>kv. JStr (fst kv)) cats) (c_destinationName f)
                  (c_description f)")
    case (Inl e)
    with found cats completed show ?thesis
      by (simp add: run_closure_fails_early)
  next
    case r: (Inr r)
    from run_closure_finished[OF found cats r] completed
    have "find_job (snd (run_closure svc f s)) (c_job f) =
             Some (j\<lparr>status := Finished, data := next_addr s\<rparr>)"
      by (rule mp)
    with cats r run_closure_updated[OF found cats r] show ?thesis
      by (intro exI conjI)
  qed
qed

lemma accepted_B_job: "find_job accepted_B 1 = Some \<lparr>job_id = 1, status = Created, data = 1\<rparr>"
  by (simp add: find_job_def accepted_B_eq)

lemma accepted_B_next: "next_addr accepted_B = 2"
  by (simp add: accepted_B_eq)

lemma closure_B_fields:
  "c_job closure_B = 1"
  "c_destinationName closure_B = JStr ''Cafe''"
  "c_description closure_B = JStr ''coffee''"
  "c_body closure_B = scenario_A"
  by (simp_all add: closure_B_eq)

lemma scenario_A_content:
  "path scenario_A [''content'', ''id''] = Inr (JStr ''1'')"
  "path scenario_A [''content'', ''transactions''] =
     Inr (JArr [transaction [(''category_id'', JNull)]])"
  by (simp_all add: scenario_A_def payload_def get_prop_def nullish_def)

theorem closure_steps_in_order_witness:
  "calls (snd (run_closure match_food closure_B accepted_B)) =
     calls accepted_B @
     [SetJobInProgress 1, GetCategories,
      Classify [JStr ''Food''] (JStr ''Cafe'') (JStr ''coffee''), UpdateJobData 1 2,
      SetCategory (JStr ''1'') (JArr [transaction [(''category_id'', JNull)]]) (JStr ''7''),
      SetJobFinished 1] \<and>
   calls (snd (run_closure no_match closure_B accepted_B)) =
     calls accepted_B @
     [SetJobInProgress 1, GetCategories,
      Classify [JStr ''Food''] (JStr ''Cafe'') (JStr ''coffee''), UpdateJobData 1 2,
      SetJobFinished 1] \<and>
   find_job (snd (run_closure no_match closure_B accepted_B)) 1 =
     Some \<lparr>job_id = 1, status = Finished, data = 2\<rparr>"
proof -
  have pass: "\<forall>r\<in>set rules. violated r scenario_A = Inr False"
    using scenario_A_passes by (simp only: first_violation_all_pass)
  have f: "closure_B = last (queue (snd (handleWebhook scenario_A accepted_A)))"
    by (simp add: closure_B_def accepted_B_def)
  have found: "find_job accepted_B (c_job closure_B) =
      Some \<lparr>job_id = 1, status = Created, data = 1\<rparr>"
    using accepted_B_job by (simp add: closure_B_fields)
  have created: "status \<lparr>job_id = 1, status = Created, data = 1\<rparr> = Created"
    by simp
  have cats1: "getCategories match_food = Inr [(''Food'', JStr ''7'')]"
    by (simp add: match_food_def)
  have cls1: "classify match_food (map (\<lambda>kv. JStr (fst kv)) [(''Food'', JStr ''7'')])
      (c_destinationName closure_B) (c_description closure_B) =
      Inr \<lparr>category = JStr ''Food'', prompt = JStr ''p'', response = JStr ''r''\<rparr>"
    by (simp add: match_food_def)
  have set1: "\<forall>cid txs c. setCategory match_food cid txs c = Inr ()"
    by (simp add: match_food_def)
  have cats2: "getCategories no_match = Inr [(''Food'', JStr ''7'')]"
    by (simp add: no_match_def)
  have cls2: "classify no_match (map (\<lambda>kv. JStr (fst kv)) [(''Food'', JStr ''7'')])
      (c_destinationName closure_B) (c_description closure_B) =
      Inr \<lparr>category = JNull, prompt = JStr ''p'', response = JStr ''r''\<rparr>"
    by (simp add: no_match_def)
  have set2: "\<forall>cid txs c. setCategory no_match cid txs c = Inr ()"
    by (simp add: no_match_def)
  from closure_steps_in_order[OF pass f found created cats1 cls1 set1]
  obtain cid txs s' where
    cid: "path scenario_A [''content'', ''id''] = Inr cid" and
    txs: "path scenario_A [''content'', ''transactions''] = Inr txs" and
    run: "run_closure match_food closure_B accepted_B = (Inr (), s')" and
    cs: "calls s' = calls accepted_B @
        [SetJobInProgress (c_job closure_B), GetCategories,
         Classify (map (\<lambda>kv. JStr (fst kv)) [(''Food'', JStr ''7'')])
           (c_destinationName closure_B) (c_description closure_B),
         UpdateJobData (c_job closure_B) (next_addr accepted_B)] @
        (if truthy (category \<lparr>category = JStr ''Food'', prompt = JStr ''p'',
                               response = JStr ''r''\<rparr>)
         then [SetCategory cid txs (map_get [(''Food'', JStr ''7'')]
                 (category \<lparr>category = JStr ''Food'', prompt = JStr ''p'',
                             response = JStr ''r''\<rparr>))]
         else []) @
        [SetJobFinished (c_job closure_B)]"
    by (elim exE conjE)
  from cid txs have "cid = JStr ''1''" "txs = JArr [transaction [(''category_id'', JNull)]]"
    by (simp_all add: scenario_A_content del: path.simps)
  with cs have 1: "calls s' =
     calls accepted_B @
     [SetJobInProgress 1, GetCategories,
      Classify [JStr ''Food''] (JStr ''Cafe'') (JStr ''coffee''), UpdateJobData 1 2,
      SetCategory (JStr ''1'') (JArr [transaction [(''category_id'', JNull)]]) (JStr ''7''),
      SetJobFinished 1]"
    by (simp add: closure_B_fields accepted_B_next)
  from closure_steps_in_order[OF pass f found created cats2 cls2 set2]
  obtain cid' txs' s'' where
    run': "run_closure no_match closure_B accepted_B = (Inr (), s'')" and
    cs': "calls s'' = calls accepted_B @
        [SetJobInProgress (c_job closure_B), GetCategories,
         Classify (map (\<lambda>kv. JStr (fst kv)) [(''Food'', JStr ''7'')])
           (c_destinationName closure_B) (c_description closure_B),
         UpdateJobData (c_job closure_B) (next_addr accepted_B)] @
        (if truthy (category \<lparr>category = JNull, prompt = JStr ''p'', response = JStr ''r''\<rparr>)
         then [SetCategory cid' txs' (map_get [(''Food'', JStr ''7'')]
                 (category \<lparr>category = JNull, prompt = JStr ''p'', response = JStr ''r''\<rparr>))]
         else []) @
        [SetJobFinished (c_job closure_B)]" and
    fj: "find_job s'' (c_job closure_B) =
        Some (\<lparr>job_id = 1, status = Created, data = 1\<rparr>
               \<lparr>status := Finished, data := next_addr accepted_B\<rparr>)"
    by (elim exE conjE)
  from cs' have 2: "calls s'' =
     calls accepted_B @
     [SetJobInProgress 1, GetCategories,
      Classify [JStr ''Food''] (JStr ''Cafe'') (JStr ''coffee''), UpdateJobData 1 2,
      SetJobFinished 1]"
    by (simp add: closure_B_fields accepted_B_next)
  from fj have 3: "find_job s'' 1 = Some \<lparr>job_id = 1, status = Finished, data = 2\<rparr>"
    by (simp add: closure_B_fields accepted_B_next)
  from 1 2 3 show ?thesis
    by (simp add: run run')
qed

section \<open>The data of a job\<close>

lemma no_match_run:
  "fst (run_closure no_match closure_B accepted_B) = Inr ()"
  "find_job (snd (run_closure no_match closure_B accepted_B)) 1 =
     Some \<lparr>job_id = 1, status = Finished, data = 2\<rparr>"
  "heap (snd (run_closure no_match closure_B accepted_B)) 2 =
     [''destinationName'' \<mapsto> JStr ''Cafe'', ''description'' \<mapsto> JStr ''coffee'',
      ''category'' \<mapsto> JNull, ''prompt'' \<mapsto> JStr ''p'', ''response'' \<mapsto> JStr ''r'']"
proof -
  have found: "find_job accepted_B (c_job closure_B) =
      Some \<lparr>job_id = 1, status = Created, data = 1\<rparr>"
    using accepted_B_job by (simp add: closure_B_fields)
  have cats: "getCategories no_match = Inr [(''Food'', JStr ''7'')]"
    by (simp add: no_match_def)
  have cls: "classify no_match (map (\<lambda>kv. JStr (fst kv)) [(''Food'', JStr ''7'')])
      (c_destinationName closure_B) (c_description closure_B) =
      Inr \<lparr>category = JNull, prompt = JStr ''p'', response = JStr ''r''\<rparr>"
    by (simp add: no_match_def)
  have completed: "fst (run_closure no_match closure_B accepted_B) = Inr ()"
    using run_closure_succeeds[OF found cats cls, of JNull JNull] by simp
  from run_closure_completed[OF found completed] cats cls
  have fj: "find_job (snd (run_closure no_match closure_B accepted_B)) (c_job closure_B) =
             Some (\<lparr>job_id = 1, status = Created, data = 1\<rparr>
                    \<lparr>status := Finished, data := next_addr accepted_B\<rparr>)"
    by auto
  have hp: "heap (snd (run_closure no_match closure_B accepted_B)) =
      (heap accepted_B)(next_addr accepted_B :=
         (heap accepted_B (data \<lparr>job_id = 1, status = Created, data = 1\<rparr>))
         (''category'' \<mapsto> category \<lparr>category = JNull, prompt = JStr ''p'', response = JStr ''r''\<rparr>,
          ''prompt'' \<mapsto> prompt \<lparr>category = JNull, prompt = JStr ''p'', response = JStr ''r''\<rparr>,
          ''response'' \<mapsto> response \<lparr>category = JNull, prompt = JStr ''p'', response = JStr ''r''\<rparr>))"
    by (rule run_closure_updated[OF found cats cls])
  show "fst (run_closure no_match closure_B accepted_B) = Inr ()"
    by (rule completed)
  from fj show "find_job (snd (run_closure no_match closure_B accepted_B)) 1 =
     Some \<lparr>job_id = 1, status = Finished, data = 2\<rparr>"
    by (simp add: closure_B_fields accepted_B_next)
  have old: "heap accepted_B 1 =
      [''destinationName'' \<mapsto> JStr ''Cafe'', ''description'' \<mapsto> JStr ''coffee'']"
    by (simp add: accepted_B_eq)
  show "heap (snd (run_closure no_match closure_B accepted_B)) 2 =
     [''destinationName'' \<mapsto> JStr ''Cafe'', ''description'' \<mapsto> JStr ''coffee'',
      ''category'' \<mapsto> JNull, ''prompt'' \<mapsto> JStr ''p'', ''response'' \<mapsto> JStr ''r'']"
    using old by (subst hp) (simp add: accepted_B_next)
qed

text \<open>
  Claim C7, as stated, fails: after the closure of an accepted Scenario A has run with a
  classifier that finds no category, the job's data object has the key \<^verbatim>\<open>category\<close>,
  holding \<^verbatim>\<open>null\<close>.
\<close>

theorem category_key_present_after_no_match:
  "classify no_match [JStr ''Food''] (JStr ''Cafe'') (JStr ''coffee'') =
     Inr \<lparr>category = JNull, prompt = JStr ''p'', response = JStr ''r''\<rparr> \<and>
   fst (run_closure no_match closure_B accepted_B) = Inr () \<and>
   find_job (snd (run_closure no_match closure_B accepted_B)) 1 =
     Some \<lparr>job_id = 1, status = Finished, data = 2\<rparr> \<and>
   heap (snd (run_closure no_match closure_B accepted_B)) 2 ''category'' = Some JNull \<and>
   ''category'' \<in> dom (heap (snd (run_closure no_match closure_B accepted_B)) 2)"
proof -
  have answer: "classify no_match [JStr ''Food''] (JStr ''Cafe'') (JStr ''coffee'') =
     Inr \<lparr>category = JNull, prompt = JStr ''p'', response = JStr ''r''\<rparr>"
    by (simp add: no_match_def)
  have key: "heap (snd (run_closure no_match closure_B accepted_B)) 2 ''category'' = Some JNull"
    by (subst no_match_run(3)) simp
  then have "''category'' \<in> dom (heap (snd (run_closure no_match closure_B accepted_B)) 2)"
    by (rule domI)
  with answer key no_match_run(1,2) show ?thesis
    by (intro conjI)
qed

text \<open>
  Claim C7, amended.  The data object of a job that was just created has the keys
  \<^verbatim>\<open>destinationName\<close> and \<^verbatim>\<open>description\<close> and no other, so \<^verbatim>\<open>category\<close>, \<^verbatim>\<open>prompt\<close> and
  \<^verbatim>\<open>response\<close> are absent.  Once the closure has completed, the job's data object is the
  old one with all three keys set to what the classification returned, \<^verbatim>\<open>category\<close>
  included whatever its value.
\<close>

theorem data_keys_before_and_after_classification:
  "((\<forall>r\<in>set rules. violated r body = Inr False) \<longrightarrow>
      dom (heap (snd (handleWebhook body st))
             (data (last (jobs (snd (handleWebhook body st)))))) =
        {''destinationName'', ''description''}) \<and>
   (find_job s (c_job f) = Some j \<and> fst (run_closure svc f s) = Inr () \<longrightarrow>
      (\<exists>cats r j'.
         getCategories svc = Inr cats \<and>
         classify svc (map (\<lambda>kv. JStr (fst kv)) cats) (c_destinationName f)
           (c_description f) = Inr r \<and>
         find_job (snd (run_closure svc f s)) (c_job f) = Some j' \<and>
         heap (snd (run_closure svc f s)) (data j') =
           (heap s (data j))(''category'' \<mapsto> category r, ''prompt'' \<mapsto> prompt r,
                             ''response'' \<mapsto> response r)))"
proof (intro conjI impI)
  assume "\<forall>r\<in>set rules. violated r body = Inr False"
  then have pass: "first_violation rules body = None"
    by (rule all_rules_pass)
  have datas: "map data (jobs (snd (handleWebhook body st))) =
      map data (jobs st) @ [next_addr st]"
    by (simp add: handleWebhook_chain pass Let_def queue_push_frame)
  then have "jobs (snd (handleWebhook body st)) \<noteq> []"
    by auto
  then have "data (last (jobs (snd (handleWebhook body st)))) =
      last (map data (jobs (snd (handleWebhook body st))))"
    by (simp add: last_map)
  with datas have at: "data (last (jobs (snd (handleWebhook body st)))) = next_addr st"
    by simp
  have "heap (snd (handleWebhook body st)) (next_addr st) =
      [''destinationName'' \<mapsto> projr (path body (tx0 ''destination_name'')),
       ''description'' \<mapsto> projr (path body (tx0 ''description''))]"
    by (simp add: handleWebhook_chain pass Let_def queue_push_frame)
  with at show "dom (heap (snd (handleWebhook body st))
             (data (last (jobs (snd (handleWebhook body st)))))) =
        {''destinationName'', ''description''}"
    by auto
next
  assume "find_job s (c_job f) = Some j \<and> fst (run_closure svc f s) = Inr ()"
  then have found: "find_job s (c_job f) = Some j"
    and completed: "fst (run_closure svc f s) = Inr ()"
    by simp_all
  from run_closure_completed[OF found completed] obtain cats r where
    cats: "getCategories svc = Inr cats" and
    cls: "classify svc (map (\<lambda>kv. JStr (fst kv)) cats) (c_destinationName f)
           (c_description f) = Inr r" and
    fj: "find_job (snd (run_closure svc f s)) (c_job f) =
           Some (j\<lparr>status := Finished, data := next_addr s\<rparr>)" and
    hp: "heap (snd (run_closure svc f s)) =
           (heap s)(next_addr s :=
             (heap s (data j))(''category'' \<mapsto> category r, ''prompt'' \<mapsto> prompt r,
                               ''response'' \<mapsto> response r))"
    by (elim exE conjE)
  show "\<exists>cats r j'.
         getCategories svc = Inr cats \<and>
         classify svc (map (\<lambda>kv. JStr (fst kv)) cats) (c_destinationName f)
           (c_description f) = Inr r \<and>
         find_job (snd (run_closure svc f s)) (c_job f) = Some j' \<and>
         heap (snd (run_closure svc f s)) (data j') =
           (heap s (data j))(''category'' \<mapsto> category r, ''prompt'' \<mapsto> prompt r,
                             ''response'' \<mapsto> response r)"
  proof (intro exI conjI)
    show "getCategories svc = Inr cats"
      by (rule cats)
    show "classify svc (map (\<lambda>kv. JStr (fst kv)) cats) (c_destinationName f)
           (c_description f) = Inr r"
      by (rule cls)
    show "find_job (snd (run_closure svc f s)) (c_job f) =
           Some (j\<lparr>status := Finished, data := next_addr s\<rparr>)"
      by (rule fj)
    show "heap (snd (run_closure svc f s)) (data (j\<lparr>status := Finished, data := next_addr s\<rparr>)) =
           (heap s (data j))(''category'' \<mapsto> category r, ''prompt'' \<mapsto> prompt r,
                             ''response'' \<mapsto> response r)"
      by (simp add: hp)
  qed
qed

lemma accepted_A_last: "data (last (jobs accepted_A)) = 0"
  by (simp add: accepted_A_eq)

theorem data_keys_before_and_after_classification_witness:
  "dom (heap accepted_A 0) = {''destinationName'', ''description''} \<and>
   heap (snd (run_closure no_match closure_B accepted_B)) 2 =
     [''destinationName'' \<mapsto> JStr ''Cafe'', ''description'' \<mapsto> JStr ''coffee'',
      ''category'' \<mapsto> JNull, ''prompt'' \<mapsto> JStr ''p'', ''response'' \<mapsto> JStr ''r'']"
proof -
  note both = data_keys_before_and_after_classification[where body = scenario_A
      and st = init_state and s = accepted_B and f = closure_B and svc = no_match
      and j = "\<lparr>job_id = 1, status = Created, data = 1\<rparr>"]
  have pass: "\<forall>r\<in>set rules. violated r scenario_A = Inr False"
    using scenario_A_passes by (simp only: first_violation_all_pass)
  from both[THEN conjunct1, THEN mp, OF pass]
  have 1: "dom (heap accepted_A 0) = {''destinationName'', ''description''}"
    by (simp add: accepted_A_def[symmetric] accepted_A_last)
  from accepted_B_job no_match_run(1)
  have "find_job accepted_B (c_job closure_B) = Some \<lparr>job_id = 1, status = Created, data = 1\<rparr> \<and>
        fst (run_closure no_match closure_B accepted_B) = Inr ()"
    by (simp add: closure_B_fields)
  from both[THEN conjunct2, THEN mp, OF this]
  obtain cats r j' where
    cats: "getCategories no_match = Inr cats" and
    cls: "classify no_match (map (\<lambda>kv. JStr (fst kv)) cats) (c_destinationName closure_B)
           (c_description closure_B) = Inr r" and
    fj: "find_job (snd (run_closure no_match closure_B accepted_B)) (c_job closure_B) = Some j'" and
    hp: "heap (snd (run_closure no_match closure_B accepted_B)) (data j') =
       (heap accepted_B (data \<lparr>job_id = 1, status = Created, data = 1\<rparr>))
       (''category'' \<mapsto> category r, ''prompt'' \<mapsto> prompt r, ''response'' \<mapsto> response r)"
    by (elim exE conjE)
  from cls have r: "r = \<lparr>category = JNull, prompt = JStr ''p'', response = JStr ''r''\<rparr>"
    by (simp add: no_match_def)
  from fj no_match_run(2) have j': "j' = \<lparr>job_id = 1, status = Finished, data = 2\<rparr>"
    by (simp add: closure_B_fields)
  have h0: "heap accepted_B 1 =
      [''destinationName'' \<mapsto> JStr ''Cafe'', ''description'' \<mapsto> JStr ''coffee'']"
    by (simp add: accepted_B_eq)
  from hp h0 have 2: "heap (snd (run_closure no_match closure_B accepted_B)) 2 =
     [''destinationName'' \<mapsto> JStr ''Cafe'', ''description'' \<mapsto> JStr ''coffee'',
      ''category'' \<mapsto> JNull, ''prompt'' \<mapsto> JStr ''p'', ''response'' \<mapsto> JStr ''r'']"
    by (simp add: r j')
  from 1 2 show ?thesis
    by (rule conjI)
qed

lemma updateJobData_known:
  assumes "find_job s i = Some j"
  shows "heap (snd (updateJobData i a s)) = heap s"
    and "find_job (snd (updateJobData i a s)) i = Some (j\<lparr>data := a\<rparr>)"
proof -
  from assms have f0: "find (\<lambda>j. job_id j = i) (jobs s) = Some j"
    by (simp add: find_job_def)
  show "heap (snd (updateJobData i a s)) = heap s"
    by (simp add: updateJobData_def update_job_def assms)
  show "find_job (snd (updateJobData i a s)) i = Some (j\<lparr>data := a\<rparr>)"
    by (simp add: updateJobData_def update_job_def assms)
       (simp add: find_job_def find_map_update f0 found_job_id[OF f0])
qed

text \<open>
  Claim C8.  \<^verbatim>\<open>updateJobData\<close> writes nothing to the heap and makes the job point to the
  data it is given.  The closure builds that data in a new object, so however its run
  ends, the object the job pointed to before, like every object allocated before, is
  unchanged; and when the run completes the job points to another object than before.
\<close>

theorem update_leaves_snapshots_alone:
  assumes found: "find_job s i = Some j"
    and below: "data j < next_addr s"
  shows "heap (snd (updateJobData i a s)) = heap s \<and>
         find_job (snd (updateJobData i a s)) i = Some (j\<lparr>data := a\<rparr>) \<and>
         (c_job f = i \<longrightarrow>
            heap (snd (run_closure svc f s)) (data j) = heap s (data j) \<and>
            (\<forall>b. b < next_addr s \<longrightarrow> heap (snd (run_closure svc f s)) b = heap s b) \<and>
            (fst (run_closure svc f s) = Inr () \<longrightarrow>
               (\<exists>j'. find_job (snd (run_closure svc f s)) i = Some j' \<and> data j' \<noteq> data j)))"
proof (intro conjI impI allI)
  show "heap (snd (updateJobData i a s)) = heap s"
    by (rule updateJobData_known[OF found])
  show "find_job (snd (updateJobData i a s)) i = Some (j\<lparr>data := a\<rparr>)"
    by (rule updateJobData_known[OF found])
next
  from below show "heap (snd (run_closure svc f s)) (data j) = heap s (data j)"
    by (simp add: run_closure_heap_frame)
  fix b
  assume "b < next_addr s"
  then show "heap (snd (run_closure svc f s)) b = heap s b"
    by (simp add: run_closure_heap_frame)
next
  assume "c_job f = i" and "fst (run_closure svc f s) = Inr ()"
  with found have "find_job s (c_job f) = Some j" "fst (run_closure svc f s) = Inr ()"
    by simp_all
  from run_closure_completed[OF this]
  have "find_job (snd (run_closure svc f s)) (c_job f) =
             Some (j\<lparr>status := Finished, data := next_addr s\<rparr>)"
    by (elim exE conjE)
  with below \<open>c_job f = i\<close>
  show "\<exists>j'. find_job (snd (run_closure svc f s)) i = Some j' \<and> data j' \<noteq> data j"
    by simp
qed

theorem update_leaves_snapshots_alone_witness:
  "heap (snd (run_closure no_match closure_B accepted_B)) 1 =
     [''destinationName'' \<mapsto> JStr ''Cafe'', ''description'' \<mapsto> JStr ''coffee''] \<and>
   (\<exists>j'. find_job (snd (run_closure no_match closure_B accepted_B)) 1 = Some j' \<and>
         data j' \<noteq> 1) \<and>
   find_job (snd (updateJobData 1 5 accepted_B)) 1 =
     Some \<lparr>job_id = 1, status = Created, data = 5\<rparr>"
proof -
  have below: "data \<lparr>job_id = 1, status = Created, data = 1\<rparr> < next_addr accepted_B"
    by (simp add: accepted_B_next)
  note all = update_leaves_snapshots_alone[OF accepted_B_job below,
      where a = 5 and f = closure_B and svc = no_match]
  have f: "c_job closure_B = 1"
    by (rule closure_B_fields)
  note run = all[THEN conjunct2, THEN conjunct2, THEN mp, OF f]
  have old: "heap accepted_B 1 =
      [''destinationName'' \<mapsto> JStr ''Cafe'', ''description'' \<mapsto> JStr ''coffee'']"
    by (simp add: accepted_B_eq)
  from run[THEN conjunct1] old
  have 1: "heap (snd (run_closure no_match closure_B accepted_B)) 1 =
     [''destinationName'' \<mapsto> JStr ''Cafe'', ''description'' \<mapsto> JStr ''coffee'']"
    by simp
  from run[THEN conjunct2, THEN conjunct2, THEN mp, OF no_match_run(1)]
  have 2: "\<exists>j'. find_job (snd (run_closure no_match closure_B accepted_B)) 1 = Some j' \<and>
         data j' \<noteq> 1"
    by simp
  from all[THEN conjunct2, THEN conjunct1]
  have 3: "find_job (snd (updateJobData 1 5 accepted_B)) 1 =
     Some \<lparr>job_id = 1, status = Created, data = 5\<rparr>"
    by simp
  from 1 2 3 show ?thesis
    by (intro conjI)
qed

end
